theory Spec2Isabelle
  imports Complex_Main
begin

section \<open>Progress event seeding: the pacing scheduler of \<^verbatim>\<open>src/seed/events.ts\<close>\<close>

text \<open>
  The development embeds \<^verbatim>\<open>seedProgressEventsForGroup\<close> and the helpers it calls.

  Conventions of the embedding.
  \<^item> Day offsets ("days ago") are integers; array indices and counts are naturals.
  \<^item> JavaScript numbers are IEEE doubles. A double is modelled by the rational number it
    denotes, and every division and multiplication of the source whose exact result need not
    be a double is rounded by \<open>toDouble\<close> (round to nearest, ties to even, 53 bits):
    \<^verbatim>\<open>Math.ceil((moduleLessonCount / totalLessons) * workingDays.length)\<close>, the start index
    \<^verbatim>\<open>Math.floor((i / enrollments.length) * (moduleDays.length * 0.3))\<close> and
    \<^verbatim>\<open>Math.floor(availableDays.length / lessonsToCompleteInModule)\<close>. Array lengths and
    indices are doubles as they are. The one exception is
    \<^verbatim>\<open>Math.ceil(moduleLessons.length * completionRate)\<close>, computed over exact rationals: the
    rates are multiples of 1/5, so the exact product is an integer or at least 1/5 away from
    one, and the rounding of a double product of an array length moves it by far less.
    The only non-finite value the source can produce, \<^verbatim>\<open>0 / 0 = NaN\<close>, is modelled explicitly.
  \<^item> A timestamp is the number of hours since today's local midnight (negative in the past);
    the source renders the same instant as an ISO-8601 string in UTC, whose order is the order
    of the instants. Daylight-saving shifts are not modelled.
  \<^item> The database is the list of rows inserted, in insertion order. Row identifiers drawn from
    \<^verbatim>\<open>randomUUID()\<close> and payload fields that are constants are left out.
  \<^item> An access that would make the JavaScript throw (a property read on \<^verbatim>\<open>undefined\<close>, an
    invalid date) is the error branch \<open>Inl\<close> of the result.
  \<^item> The \<^verbatim>\<open>dailyStats\<close> map and the console output only serve logging and are left out.
\<close>

subsection \<open>Data model (\<^verbatim>\<open>src/seed/config.ts\<close>)\<close>

record enrollment =
  enrollment_id :: int
  studentProfileId :: string
  name :: string

text \<open>\<open>kcId = None\<close> stands for a missing (\<^verbatim>\<open>undefined\<close> or \<^verbatim>\<open>null\<close>) knowledge component id.\<close>

record lessonQuestion =
  question_id :: int
  kcId :: "int option"
  assignmentQuestionId :: int

record lessonData =
  lessonId :: int
  masteryCheckId :: int
  assignedLessonId :: int
  assignedMasteryId :: int
  questions :: "lessonQuestion list"

datatype error = TypeError | RangeError

type_synonym timestamp = int

definition DAYS_TO_SEED :: nat where
  "DAYS_TO_SEED = 45"

text \<open>
  \<^verbatim>\<open>getTimestampDaysAgo(daysAgo, hoursOffset = 0)\<close>: today's midnight, moved back \<open>daysAgo\<close> days,
  then set to \<open>10 + hoursOffset\<close> o'clock (\<^verbatim>\<open>setHours\<close> rolls over into later days).
\<close>

definition getTimestampDaysAgo :: "int \<Rightarrow> int \<Rightarrow> timestamp" where
  "getTimestampDaysAgo daysAgo hoursOffset = 10 + hoursOffset - 24 * daysAgo"

subsection \<open>Working days\<close>

text \<open>
  \<open>todayDow\<close> is \<^verbatim>\<open>new Date().getDay()\<close> of the day of the run (0 = Sunday, 6 = Saturday);
  the day \<open>dayOffset\<close> days ago then has the day of week below.
\<close>

definition dayOfWeek :: "int \<Rightarrow> int \<Rightarrow> int" where
  "dayOfWeek todayDow dayOffset = (todayDow - dayOffset) mod 7"

definition workingDays :: "nat \<Rightarrow> int \<Rightarrow> int list" where
  "workingDays daysToSeed todayDow =
     filter (\<lambda>dayOffset. dayOfWeek todayDow dayOffset \<noteq> 0 \<and> dayOfWeek todayDow dayOffset \<noteq> 6)
       (rev (map int [1..<Suc daysToSeed]))"

subsection \<open>Array helpers\<close>

text \<open>\<^verbatim>\<open>xs.slice(s, e)\<close> for \<open>0 \<le> s\<close> and \<open>0 \<le> e\<close>.\<close>

definition slice :: "'a list \<Rightarrow> nat \<Rightarrow> nat \<Rightarrow> 'a list" where
  "slice xs s e = take (e - s) (drop s xs)"

text \<open>\<^verbatim>\<open>xs[i]\<close>: \<open>None\<close> is \<^verbatim>\<open>undefined\<close>.\<close>

definition elemAt :: "'a list \<Rightarrow> nat \<Rightarrow> 'a option" where
  "elemAt xs i = (if i < length xs then Some (xs ! i) else None)"

text \<open>\<^verbatim>\<open>xs.indexOf(x)\<close>: the first index of \<open>x\<close>; \<open>None\<close> is \<open>-1\<close>.\<close>

fun indexOf :: "'a list \<Rightarrow> 'a \<Rightarrow> nat option" where
  "indexOf [] x = None"
| "indexOf (y # ys) x =
     (if y = x then Some 0 else (case indexOf ys x of None \<Rightarrow> None | Some i \<Rightarrow> Some (Suc i)))"

subsection \<open>Double-precision arithmetic\<close>

text \<open>
  \<open>bitLength k\<close> is the number of binary digits of \<open>k > 0\<close>. For \<open>x > 0\<close>, \<open>binaryExponent x\<close> is
  the exponent \<open>e\<close> with \<open>2 ^ e \<le> x < 2 ^ (e + 1)\<close>: the quotient of a numerator of \<open>a\<close> digits by
  a denominator of \<open>b\<close> digits lies between \<open>2 ^ (a - b - 1)\<close> and \<open>2 ^ (a - b + 1)\<close>.
\<close>

function bitLength :: "int \<Rightarrow> nat" where
  "bitLength k = (if k \<le> 0 then 0 else Suc (bitLength (k div 2)))"
  by pat_completeness auto
termination
  by (relation "measure nat") auto

definition binaryExponent :: "rat \<Rightarrow> int" where
  "binaryExponent x =
     (let (p, q) = quotient_of x;
          d = int (bitLength p) - int (bitLength q)
      in if 2 powi d \<le> x then d else d - 1)"

text \<open>Rounding to the nearest integer, a tie going to the even neighbour.\<close>

definition roundHalfEven :: "rat \<Rightarrow> int" where
  "roundHalfEven q =
     (let f = \<lfloor>q\<rfloor>; r = q - of_int f
      in if r < 1 / 2 then f else if 1 / 2 < r then f + 1 else if even f then f else f + 1)"

text \<open>
  The double nearest to \<open>x\<close>: doubles with the exponent of \<open>x\<close> are the multiples of
  \<open>2 ^ (e - 52)\<close>. The exponent range of doubles (overflow beyond \<open>2 ^ 1024\<close>, subnormal numbers
  below \<open>2 ^ -1022\<close>) is not modelled; quotients and products of array lengths stay far inside.
\<close>

definition toDouble :: "rat \<Rightarrow> rat" where
  "toDouble x =
     (if x = 0 then 0
      else (let ulp = 2 powi (binaryExponent \<bar>x\<bar> - 52)
            in sgn x * of_int (roundHalfEven (\<bar>x\<bar> / ulp)) * ulp))"

subsection \<open>Splitting the working days between the modules\<close>

text \<open>
  \<^verbatim>\<open>Math.ceil((moduleLessonCount / totalLessons) * workingDays.length)\<close>, the quotient and the
  product each rounded to a double. \<open>None\<close> is \<^verbatim>\<open>NaN\<close>: \<open>totalLessons\<close> is the sum of the
  module lengths, so a zero total forces a zero \<open>moduleLessonCount\<close>, and \<^verbatim>\<open>0 / 0\<close> is \<^verbatim>\<open>NaN\<close>.
\<close>

definition moduleDayCount :: "nat \<Rightarrow> nat \<Rightarrow> nat \<Rightarrow> nat option" where
  "moduleDayCount moduleLessonCount totalLessons nDays =
     (if totalLessons = 0 then None
      else Some (nat \<lceil>toDouble (toDouble (rat_of_nat moduleLessonCount / rat_of_nat totalLessons)
                                * rat_of_nat nDays)\<rceil>))"

text \<open>
  The loop over the modules (lines 68-74). The accumulator is \<open>(moduleWorkingDays, dayIndex)\<close>;
  \<open>dayIndex = None\<close> is \<^verbatim>\<open>NaN\<close>. \<^verbatim>\<open>Math.min\<close> of \<^verbatim>\<open>NaN\<close> is \<^verbatim>\<open>NaN\<close>, and \<^verbatim>\<open>slice\<close> reads a
  \<^verbatim>\<open>NaN\<close> bound as 0.
\<close>

definition nanToZero :: "nat option \<Rightarrow> nat" where
  "nanToZero v = (case v of None \<Rightarrow> 0 | Some k \<Rightarrow> k)"

fun splitDaysLoop :: "int list \<Rightarrow> nat \<Rightarrow> 'a list list \<Rightarrow> int list list \<times> nat option
    \<Rightarrow> int list list \<times> nat option" where
  "splitDaysLoop wd totalLessons [] acc = acc"
| "splitDaysLoop wd totalLessons (moduleLessons # rest) (moduleWorkingDays, dayIndex) =
     (let moduleLessonCount = length moduleLessons;
          endIndex = (case (dayIndex, moduleDayCount moduleLessonCount totalLessons (length wd)) of
                        (Some d, Some c) \<Rightarrow> Some (min (d + c) (length wd))
                      | _ \<Rightarrow> None)
      in splitDaysLoop wd totalLessons rest
           (moduleWorkingDays @ [slice wd (nanToZero dayIndex) (nanToZero endIndex)], endIndex))"

text \<open>
  Lines 47 and 66-78: the windows of all modules. When days are left over and there is no
  module, \<^verbatim>\<open>moduleWorkingDays[-1].push\<close> throws a \<^verbatim>\<open>TypeError\<close>.
\<close>

definition splitWorkingDays :: "int list \<Rightarrow> 'a list list \<Rightarrow> error + int list list" where
  "splitWorkingDays wd lessonsByModule =
     (let totalLessons = sum_list (map length lessonsByModule);
          (moduleWorkingDays, dayIndex) = splitDaysLoop wd totalLessons lessonsByModule ([], Some 0)
      in case dayIndex of
           None \<Rightarrow> Inr moduleWorkingDays
         | Some d \<Rightarrow>
             if d < length wd
             then (if moduleWorkingDays = [] then Inl TypeError
                   else Inr (butlast moduleWorkingDays @ [last moduleWorkingDays @ drop d wd]))
             else Inr moduleWorkingDays)"

subsection \<open>The next working day\<close>

definition getNextWorkingDay :: "int \<Rightarrow> int list \<Rightarrow> int" where
  "getNextWorkingDay currentDayOffset moduleDays =
     (case indexOf moduleDays currentDayOffset of
        None \<Rightarrow> max 1 (currentDayOffset - 1)
      | Some currentIndex \<Rightarrow>
          if currentIndex = length moduleDays - 1 then max 1 (currentDayOffset - 1)
          else moduleDays ! (currentIndex + 1))"

subsection \<open>Rows written by the run\<close>

datatype eventType = LESSON_QUESTION_SHOWN | QUESTION_ANSWERED | LESSON_COMPLETED | ASSIGNMENT_COMPLETED

text \<open>
  A row of the \<^verbatim>\<open>events\<close> table: its type, the fields of its JSON payload that vary, and
  \<^verbatim>\<open>created_at\<close>. A field that the payload of a type does not have is \<open>None\<close>;
  \<open>ev_questionNumber = Some k\<close> stands for the question text \<^verbatim>\<open>Qk\<close>.
\<close>

record event =
  etype :: eventType
  ev_enrollmentId :: int
  ev_studentProfileId :: string
  ev_groupId :: int
  ev_assignmentId :: int
  ev_assignedAssignmentId :: "int option"
  ev_questionId :: "int option"
  ev_knowledgeComponentId :: "int option"
  ev_assignmentQuestionId :: "int option"
  ev_questionNumber :: "nat option"
  created_at :: timestamp

text \<open>
  \<open>ResponseRow enrollment_id question_id created_at\<close> is a row of \<^verbatim>\<open>responses\<close>,
  \<open>AssignmentQuestionResponseRow assignment_question_id assigned_assignment_id created_at\<close> a row of
  \<^verbatim>\<open>assignment_question_responses\<close>.
\<close>

datatype row =
    EventRow event
  | ResponseRow int int timestamp
  | AssignmentQuestionResponseRow int int timestamp

text \<open>
  The one query of the run, in \<^verbatim>\<open>createMasteryCheckResponse\<close>: the first row
  \<open>(aq.id, aq.question_id)\<close> of \<^verbatim>\<open>assignment_questions\<close> for an assignment id, if any.
  The run does not write to that table.
\<close>

type_synonym assignmentQuestions = "int \<Rightarrow> (int \<times> int) option"

subsection \<open>Event creation helpers\<close>

text \<open>\<^verbatim>\<open>!question.kcId\<close>: a missing id and the number 0 are falsy.\<close>

definition falsy :: "int option \<Rightarrow> bool" where
  "falsy v = (case v of None \<Rightarrow> True | Some k \<Rightarrow> k = 0)"

definition createQuestionShownEvent ::
    "enrollment \<Rightarrow> lessonData \<Rightarrow> lessonQuestion \<Rightarrow> int \<Rightarrow> timestamp \<Rightarrow> row list" where
  "createQuestionShownEvent enr lesson question groupId ts =
     (if falsy (kcId question) then []
      else [EventRow \<lparr>etype = LESSON_QUESTION_SHOWN,
              ev_enrollmentId = enrollment_id enr,
              ev_studentProfileId = studentProfileId enr,
              ev_groupId = groupId,
              ev_assignmentId = lessonId lesson,
              ev_assignedAssignmentId = None,
              ev_questionId = Some (question_id question),
              ev_knowledgeComponentId = kcId question,
              ev_assignmentQuestionId = None,
              ev_questionNumber = None,
              created_at = ts\<rparr>])"

definition createQuestionAnsweredEvent ::
    "enrollment \<Rightarrow> lessonData \<Rightarrow> lessonQuestion \<Rightarrow> nat \<Rightarrow> int \<Rightarrow> timestamp \<Rightarrow> row list" where
  "createQuestionAnsweredEvent enr lesson question questionIndex groupId ts =
     [EventRow \<lparr>etype = QUESTION_ANSWERED,
        ev_enrollmentId = enrollment_id enr,
        ev_studentProfileId = studentProfileId enr,
        ev_groupId = groupId,
        ev_assignmentId = lessonId lesson,
        ev_assignedAssignmentId = None,
        ev_questionId = Some (question_id question),
        ev_knowledgeComponentId = None,
        ev_assignmentQuestionId = Some (assignmentQuestionId question),
        ev_questionNumber = Some (questionIndex + 1),
        created_at = ts\<rparr>]"

definition createLessonCompletedEvent ::
    "enrollment \<Rightarrow> lessonData \<Rightarrow> int \<Rightarrow> timestamp \<Rightarrow> row list" where
  "createLessonCompletedEvent enr lesson groupId ts =
     [EventRow \<lparr>etype = LESSON_COMPLETED,
        ev_enrollmentId = enrollment_id enr,
        ev_studentProfileId = studentProfileId enr,
        ev_groupId = groupId,
        ev_assignmentId = lessonId lesson,
        ev_assignedAssignmentId = Some (assignedLessonId lesson),
        ev_questionId = None,
        ev_knowledgeComponentId = None,
        ev_assignmentQuestionId = None,
        ev_questionNumber = None,
        created_at = ts\<rparr>]"

definition createMasteryCheckCompletedEvent ::
    "enrollment \<Rightarrow> lessonData \<Rightarrow> int \<Rightarrow> timestamp \<Rightarrow> row list" where
  "createMasteryCheckCompletedEvent enr lesson groupId ts =
     [EventRow \<lparr>etype = ASSIGNMENT_COMPLETED,
        ev_enrollmentId = enrollment_id enr,
        ev_studentProfileId = studentProfileId enr,
        ev_groupId = groupId,
        ev_assignmentId = masteryCheckId lesson,
        ev_assignedAssignmentId = Some (assignedMasteryId lesson),
        ev_questionId = None,
        ev_knowledgeComponentId = None,
        ev_assignmentQuestionId = None,
        ev_questionNumber = None,
        created_at = ts\<rparr>]"

text \<open>
  \<^verbatim>\<open>createMasteryCheckResponse\<close>; the scheduler always passes the timestamp. Without a
  question for the mastery check the function returns early and writes nothing.
\<close>

definition createMasteryCheckResponse ::
    "assignmentQuestions \<Rightarrow> enrollment \<Rightarrow> lessonData \<Rightarrow> timestamp \<Rightarrow> row list" where
  "createMasteryCheckResponse db enr lesson ts =
     (case db (masteryCheckId lesson) of
        None \<Rightarrow> []
      | Some (aq_id, aq_question_id) \<Rightarrow>
          [ResponseRow (enrollment_id enr) aq_question_id ts,
           AssignmentQuestionResponseRow aq_id (assignedMasteryId lesson) ts])"

subsection \<open>The scheduler state\<close>

record PendingMasteryCheck =
  pm_enrollment :: enrollment
  pm_lesson :: lessonData
  pm_scheduledDayOffset :: int
  pm_moduleIndex :: nat

record PartialLessonProgress =
  pl_enrollment :: enrollment
  pl_lesson :: lessonData
  questionsCompleted :: nat
  pl_scheduledDayOffset :: int
  pl_moduleIndex :: nat
  lessonIndex :: nat

record seedState =
  rows :: "row list"
  pendingMasteryChecks :: "PendingMasteryCheck list"
  partialLessonProgress :: "PartialLessonProgress list"

text \<open>A \<^verbatim>\<open>for\<close> loop whose body may throw: the first error ends the loop.\<close>

fun foldE :: "('a \<Rightarrow> 's \<Rightarrow> error + 's) \<Rightarrow> 'a list \<Rightarrow> 's \<Rightarrow> error + 's" where
  "foldE f [] s = Inr s"
| "foldE f (x # xs) s = (case f x s of Inl e \<Rightarrow> Inl e | Inr s' \<Rightarrow> foldE f xs s')"

subsection \<open>Learner profile\<close>

text \<open>The \<^verbatim>\<open>switch\<close> on \<^verbatim>\<open>i % 5\<close> (lines 117-126), with its default branch.\<close>

definition completionRate :: "nat \<Rightarrow> rat" where
  "completionRate i =
     (let learnerType = i mod 5
      in if learnerType = 0 then 1
         else if learnerType = 1 then 8 / 10
         else if learnerType = 2 then 6 / 10
         else if learnerType = 3 then 4 / 10
         else if learnerType = 4 then 2 / 10
         else 5 / 10)"

subsection \<open>The main pass\<close>

text \<open>
  One turn of a question loop (lines 171-185 and 240-254): question \<open>q\<close> is stamped
  \<open>q - first\<close> hours after 10 o'clock of the day \<open>dayOffset\<close>; the first pass has \<open>first = 0\<close>.
  Reading \<^verbatim>\<open>question.kcId\<close> of a missing question throws.
\<close>

definition answerQuestion ::
    "int \<Rightarrow> enrollment \<Rightarrow> lessonData \<Rightarrow> int \<Rightarrow> nat \<Rightarrow> nat \<Rightarrow> row list \<Rightarrow> error + row list" where
  "answerQuestion groupId enr lesson dayOffset first q rs =
     (case elemAt (questions lesson) q of
        None \<Rightarrow> Inl TypeError
      | Some question \<Rightarrow>
          (let questionTimestamp = getTimestampDaysAgo dayOffset (int q - int first)
           in Inr (rs @ createQuestionShownEvent enr lesson question groupId questionTimestamp
                      @ createQuestionAnsweredEvent enr lesson question q groupId questionTimestamp)))"

text \<open>
  The body of the lesson loop (lines 152-223); the state is paired with \<open>dayIdxOffset\<close>.
  With no available day, \<^verbatim>\<open>availableDays[-1]\<close> is \<^verbatim>\<open>undefined\<close> and the date of
  \<^verbatim>\<open>getTimestampDaysAgo(undefined)\<close> is invalid: \<^verbatim>\<open>toISOString\<close> throws a \<^verbatim>\<open>RangeError\<close>.
\<close>

definition scheduleLesson ::
    "assignmentQuestions \<Rightarrow> int \<Rightarrow> nat \<Rightarrow> enrollment \<Rightarrow> nat \<Rightarrow> lessonData list \<Rightarrow> int list \<Rightarrow> int list
      \<Rightarrow> nat \<Rightarrow> nat \<Rightarrow> seedState \<times> nat \<Rightarrow> error + seedState \<times> nat" where
  "scheduleLesson db groupId i enr moduleIndex moduleLessons moduleDays availableDays daysPerLesson
       lessonIdx = (\<lambda>(st, dayIdxOffset).
     case elemAt moduleLessons lessonIdx of
       None \<Rightarrow> Inl TypeError
     | Some lesson \<Rightarrow>
         (let totalQuestions = length (questions lesson);
              splitLesson = ((i + lessonIdx + moduleIndex) mod 10 < 3 \<and> totalQuestions \<ge> 2);
              questionsDay1 = (if splitLesson then totalQuestions div 2 else totalQuestions);
              questionsDay2 = (if splitLesson then totalQuestions - questionsDay1 else 0);
              day1Idx = min dayIdxOffset (length availableDays - 1)
          in case elemAt availableDays day1Idx of
               None \<Rightarrow> Inl RangeError
             | Some day1Offset \<Rightarrow>
                 (case foldE (answerQuestion groupId enr lesson day1Offset 0) [0..<questionsDay1] (rows st) of
                    Inl e \<Rightarrow> Inl e
                  | Inr rs \<Rightarrow>
                      if splitLesson \<and> questionsDay2 > 0
                      then (let nextWorkingDay = getNextWorkingDay day1Offset availableDays
                            in Inr (st\<lparr>rows := rs,
                                       partialLessonProgress := partialLessonProgress st @
                                         [\<lparr>pl_enrollment = enr, pl_lesson = lesson,
                                           questionsCompleted = questionsDay1,
                                           pl_scheduledDayOffset = nextWorkingDay,
                                           pl_moduleIndex = moduleIndex,
                                           lessonIndex = lessonIdx\<rparr>]\<rparr>,
                                    dayIdxOffset + 2))
                      else (let completedTimestamp = getTimestampDaysAgo day1Offset (int questionsDay1);
                                rs' = rs @ createLessonCompletedEvent enr lesson groupId completedTimestamp;
                                delayMasteryCheck = ((i + lessonIdx + moduleIndex) mod 5 < 2)
                            in if delayMasteryCheck \<and> day1Offset > 1
                               then (let nextWorkingDay = getNextWorkingDay day1Offset moduleDays
                                     in Inr (st\<lparr>rows := rs',
                                                pendingMasteryChecks := pendingMasteryChecks st @
                                                  [\<lparr>pm_enrollment = enr, pm_lesson = lesson,
                                                    pm_scheduledDayOffset = nextWorkingDay,
                                                    pm_moduleIndex = moduleIndex\<rparr>]\<rparr>,
                                             dayIdxOffset + daysPerLesson))
                               else Inr (st\<lparr>rows := rs'
                                            @ createMasteryCheckResponse db enr lesson completedTimestamp
                                            @ createMasteryCheckCompletedEvent enr lesson groupId completedTimestamp\<rparr>,
                                         dayIdxOffset + daysPerLesson)))))"

text \<open>
  \<^verbatim>\<open>Math.ceil(moduleLessons.length * completionRate)\<close> (line 136), over exact rationals.
\<close>

definition lessonsToCompleteInModule :: "nat \<Rightarrow> lessonData list \<Rightarrow> nat" where
  "lessonsToCompleteInModule i moduleLessons =
     nat \<lceil>rat_of_nat (length moduleLessons) * completionRate i\<rceil>"

text \<open>
  The body of the module loop for student \<open>i\<close> (lines 130-224); \<open>nEnrollments\<close> is
  \<^verbatim>\<open>enrollments.length\<close>, and the student loop calls it with \<open>i < nEnrollments\<close> only.
  The literal \<^verbatim>\<open>0.3\<close> is the double \<open>toDouble (3 / 10)\<close>. The three \<^verbatim>\<open>continue\<close> statements
  leave the state as it is.
\<close>

definition processModule ::
    "assignmentQuestions \<Rightarrow> int \<Rightarrow> nat \<Rightarrow> nat \<Rightarrow> enrollment \<Rightarrow> lessonData list list \<Rightarrow> int list list
      \<Rightarrow> nat \<Rightarrow> seedState \<Rightarrow> error + seedState" where
  "processModule db groupId nEnrollments i enr lessonsByModule moduleWorkingDays moduleIndex st =
     (case elemAt lessonsByModule moduleIndex of
        None \<Rightarrow> Inl TypeError
      | Some moduleLessons \<Rightarrow>
          (case elemAt moduleWorkingDays moduleIndex of
             None \<Rightarrow> Inl TypeError
           | Some moduleDays \<Rightarrow>
               if length moduleDays = 0 then Inr st
               else if lessonsToCompleteInModule i moduleLessons = 0 then Inr st
               else (let startDayIndex =
                           nat \<lfloor>toDouble (toDouble (rat_of_nat i / rat_of_nat nEnrollments)
                                           * toDouble (rat_of_nat (length moduleDays) * toDouble (3 / 10)))\<rfloor>;
                         availableDays = drop startDayIndex moduleDays
                     in if length availableDays = 0 then Inr st
                        else (let daysPerLesson =
                                    max 1 (nat \<lfloor>toDouble (rat_of_nat (length availableDays)
                                                / rat_of_nat (lessonsToCompleteInModule i moduleLessons))\<rfloor>)
                              in case foldE (scheduleLesson db groupId i enr moduleIndex moduleLessons
                                               moduleDays availableDays daysPerLesson)
                                        [0..<lessonsToCompleteInModule i moduleLessons] (st, 0) of
                                   Inl e \<Rightarrow> Inl e
                                 | Inr (st', dayIdxOffset) \<Rightarrow> Inr st'))))"

text \<open>The body of the student loop (lines 113-226).\<close>

definition processStudent ::
    "assignmentQuestions \<Rightarrow> int \<Rightarrow> enrollment list \<Rightarrow> lessonData list list \<Rightarrow> int list list
      \<Rightarrow> nat \<Rightarrow> seedState \<Rightarrow> error + seedState" where
  "processStudent db groupId enrollments lessonsByModule moduleWorkingDays i st =
     (case elemAt enrollments i of
        None \<Rightarrow> Inl TypeError
      | Some enr \<Rightarrow>
          foldE (processModule db groupId (length enrollments) i enr lessonsByModule moduleWorkingDays)
            [0..<length lessonsByModule] st)"

definition mainPass ::
    "assignmentQuestions \<Rightarrow> int \<Rightarrow> enrollment list \<Rightarrow> lessonData list list \<Rightarrow> int list list
      \<Rightarrow> error + seedState" where
  "mainPass db groupId enrollments lessonsByModule moduleWorkingDays =
     foldE (processStudent db groupId enrollments lessonsByModule moduleWorkingDays)
       [0..<length enrollments]
       \<lparr>rows = [], pendingMasteryChecks = [], partialLessonProgress = []\<rparr>"

subsection \<open>The deferred passes\<close>

text \<open>
  The body of the loop over the split lessons (lines 230-276). \<^verbatim>\<open>moduleDays\<close> is only used
  when the mastery check is delayed; were it \<^verbatim>\<open>undefined\<close>, \<^verbatim>\<open>moduleDays.indexOf\<close> would throw.
\<close>

definition reconcilePartial ::
    "assignmentQuestions \<Rightarrow> int \<Rightarrow> int list list \<Rightarrow> PartialLessonProgress \<Rightarrow> seedState
      \<Rightarrow> error + seedState" where
  "reconcilePartial db groupId moduleWorkingDays partial st =
     (let enr = pl_enrollment partial;
          lesson = pl_lesson partial;
          scheduledDayOffset = pl_scheduledDayOffset partial;
          moduleIndex = pl_moduleIndex partial;
          moduleDays = elemAt moduleWorkingDays moduleIndex
      in case foldE (answerQuestion groupId enr lesson scheduledDayOffset (questionsCompleted partial))
                [questionsCompleted partial..<length (questions lesson)] (rows st) of
           Inl e \<Rightarrow> Inl e
         | Inr rs \<Rightarrow>
             (let completedTimestamp =
                    getTimestampDaysAgo scheduledDayOffset
                      (int (length (questions lesson)) - int (questionsCompleted partial));
                  rs' = rs @ createLessonCompletedEvent enr lesson groupId completedTimestamp;
                  delayMasteryCheck = ((lessonIndex partial + moduleIndex) mod 5 < 2)
              in if delayMasteryCheck \<and> scheduledDayOffset > 1
                 then (case moduleDays of
                         None \<Rightarrow> Inl TypeError
                       | Some days \<Rightarrow>
                           (let nextWorkingDay = getNextWorkingDay scheduledDayOffset days
                            in Inr (st\<lparr>rows := rs',
                                       pendingMasteryChecks := pendingMasteryChecks st @
                                         [\<lparr>pm_enrollment = enr, pm_lesson = lesson,
                                           pm_scheduledDayOffset = nextWorkingDay,
                                           pm_moduleIndex = moduleIndex\<rparr>]\<rparr>)))
                 else Inr (st\<lparr>rows := rs'
                              @ createMasteryCheckResponse db enr lesson completedTimestamp
                              @ createMasteryCheckCompletedEvent enr lesson groupId completedTimestamp\<rparr>)))"

text \<open>The body of the loop over the delayed mastery checks (lines 280-292).\<close>

definition processPending ::
    "assignmentQuestions \<Rightarrow> int \<Rightarrow> row list \<Rightarrow> PendingMasteryCheck \<Rightarrow> row list" where
  "processPending db groupId rs pending =
     (let masteryTimestamp = getTimestampDaysAgo (pm_scheduledDayOffset pending) 2
      in rs @ createMasteryCheckResponse db (pm_enrollment pending) (pm_lesson pending) masteryTimestamp
            @ createMasteryCheckCompletedEvent (pm_enrollment pending) (pm_lesson pending) groupId
                masteryTimestamp)"

subsection \<open>The whole run\<close>

text \<open>
  \<^verbatim>\<open>seedProgressEventsForGroup\<close> from line 66 on, for a given list of working days: the rows
  written, or the error thrown.
\<close>

definition seedEventsOn ::
    "assignmentQuestions \<Rightarrow> int list \<Rightarrow> int \<Rightarrow> enrollment list \<Rightarrow> lessonData list list
      \<Rightarrow> error + row list" where
  "seedEventsOn db wd groupId enrollments lessonsByModule =
     (case splitWorkingDays wd lessonsByModule of
        Inl e \<Rightarrow> Inl e
      | Inr moduleWorkingDays \<Rightarrow>
          (case mainPass db groupId enrollments lessonsByModule moduleWorkingDays of
             Inl e \<Rightarrow> Inl e
           | Inr st1 \<Rightarrow>
               (case foldE (reconcilePartial db groupId moduleWorkingDays) (partialLessonProgress st1) st1 of
                  Inl e \<Rightarrow> Inl e
                | Inr st2 \<Rightarrow>
                    Inr (foldl (processPending db groupId) (rows st2) (pendingMasteryChecks st2)))))"

definition seedProgressEventsForGroup ::
    "assignmentQuestions \<Rightarrow> int \<Rightarrow> int \<Rightarrow> enrollment list \<Rightarrow> lessonData list list
      \<Rightarrow> error + row list" where
  "seedProgressEventsForGroup db todayDow groupId enrollments lessonsByModule =
     seedEventsOn db (workingDays DAYS_TO_SEED todayDow) groupId enrollments lessonsByModule"

subsection \<open>Notions used to state the properties\<close>

text \<open>The rows of one question: what one turn of a question loop appends.\<close>

definition questionRows :: "int \<Rightarrow> enrollment \<Rightarrow> lessonData \<Rightarrow> int \<Rightarrow> nat \<Rightarrow> nat \<Rightarrow> row list" where
  "questionRows groupId enr lesson dayOffset first q =
     createQuestionShownEvent enr lesson (questions lesson ! q) groupId
         (getTimestampDaysAgo dayOffset (int q - int first))
     @ createQuestionAnsweredEvent enr lesson (questions lesson ! q) q groupId
         (getTimestampDaysAgo dayOffset (int q - int first))"

definition hasType :: "eventType \<Rightarrow> row \<Rightarrow> bool" where
  "hasType t r = (case r of EventRow ev \<Rightarrow> etype ev = t | _ \<Rightarrow> False)"

text \<open>
  The lessons a state has scheduled: those already completed and those whose second half is
  queued (the reconciler completes each of them).
\<close>

definition lessonsScheduled :: "seedState \<Rightarrow> nat" where
  "lessonsScheduled st =
     length (filter (hasType LESSON_COMPLETED) (rows st)) + length (partialLessonProgress st)"

text \<open>
  The timestamps of the events of one type that the run wrote for an enrollment, an
  assignment and a question.
\<close>

definition eventTimes :: "eventType \<Rightarrow> int \<Rightarrow> int \<Rightarrow> int option \<Rightarrow> row list \<Rightarrow> timestamp list" where
  "eventTimes t enrollmentId assignmentId questionId rs =
     concat (map (\<lambda>r. case r of
                          EventRow ev \<Rightarrow>
                            if etype ev = t \<and> ev_enrollmentId ev = enrollmentId
                               \<and> ev_assignmentId ev = assignmentId \<and> ev_questionId ev = questionId
                            then [created_at ev] else []
                        | _ \<Rightarrow> []) rs)"

text \<open>
  The rows themselves, written out field by field, for stating what a pass writes.
\<close>

abbreviation questionShownRow ::
    "enrollment \<Rightarrow> lessonData \<Rightarrow> lessonQuestion \<Rightarrow> int \<Rightarrow> timestamp \<Rightarrow> row" where
  "questionShownRow enr lesson question groupId ts \<equiv>
     EventRow \<lparr>etype = LESSON_QUESTION_SHOWN,
       ev_enrollmentId = enrollment_id enr,
       ev_studentProfileId = studentProfileId enr,
       ev_groupId = groupId,
       ev_assignmentId = lessonId lesson,
       ev_assignedAssignmentId = None,
       ev_questionId = Some (question_id question),
       ev_knowledgeComponentId = kcId question,
       ev_assignmentQuestionId = None,
       ev_questionNumber = None,
       created_at = ts\<rparr>"

abbreviation questionAnsweredRow ::
    "enrollment \<Rightarrow> lessonData \<Rightarrow> lessonQuestion \<Rightarrow> nat \<Rightarrow> int \<Rightarrow> timestamp \<Rightarrow> row" where
  "questionAnsweredRow enr lesson question questionIndex groupId ts \<equiv>
     EventRow \<lparr>etype = QUESTION_ANSWERED,
       ev_enrollmentId = enrollment_id enr,
       ev_studentProfileId = studentProfileId enr,
       ev_groupId = groupId,
       ev_assignmentId = lessonId lesson,
       ev_assignedAssignmentId = None,
       ev_questionId = Some (question_id question),
       ev_knowledgeComponentId = None,
       ev_assignmentQuestionId = Some (assignmentQuestionId question),
       ev_questionNumber = Some (questionIndex + 1),
       created_at = ts\<rparr>"

abbreviation lessonCompletedRow :: "enrollment \<Rightarrow> lessonData \<Rightarrow> int \<Rightarrow> timestamp \<Rightarrow> row" where
  "lessonCompletedRow enr lesson groupId ts \<equiv>
     EventRow \<lparr>etype = LESSON_COMPLETED,
       ev_enrollmentId = enrollment_id enr,
       ev_studentProfileId = studentProfileId enr,
       ev_groupId = groupId,
       ev_assignmentId = lessonId lesson,
       ev_assignedAssignmentId = Some (assignedLessonId lesson),
       ev_questionId = None,
       ev_knowledgeComponentId = None,
       ev_assignmentQuestionId = None,
       ev_questionNumber = None,
       created_at = ts\<rparr>"

abbreviation masteryCheckCompletedRow :: "enrollment \<Rightarrow> lessonData \<Rightarrow> int \<Rightarrow> timestamp \<Rightarrow> row" where
  "masteryCheckCompletedRow enr lesson groupId ts \<equiv>
     EventRow \<lparr>etype = ASSIGNMENT_COMPLETED,
       ev_enrollmentId = enrollment_id enr,
       ev_studentProfileId = studentProfileId enr,
       ev_groupId = groupId,
       ev_assignmentId = masteryCheckId lesson,
       ev_assignedAssignmentId = Some (assignedMasteryId lesson),
       ev_questionId = None,
       ev_knowledgeComponentId = None,
       ev_assignmentQuestionId = None,
       ev_questionNumber = None,
       created_at = ts\<rparr>"

text \<open>
  The rows of the mastery-check response: the response and its link to the assignment
  question when the mastery check has a question, none otherwise.
\<close>

abbreviation masteryCheckResponseRows ::
    "assignmentQuestions \<Rightarrow> enrollment \<Rightarrow> lessonData \<Rightarrow> timestamp \<Rightarrow> row list" where
  "masteryCheckResponseRows db enr lesson ts \<equiv>
     (case db (masteryCheckId lesson) of
        None \<Rightarrow> []
      | Some (aq_id, aq_question_id) \<Rightarrow>
          [ResponseRow (enrollment_id enr) aq_question_id ts,
           AssignmentQuestionResponseRow aq_id (assignedMasteryId lesson) ts])"

text \<open>The rows of the questions \<open>lo, \<dots>, hi - 1\<close> of a lesson, stamped as a question loop does.\<close>

abbreviation questionLoopRows ::
    "int \<Rightarrow> enrollment \<Rightarrow> lessonData \<Rightarrow> int \<Rightarrow> nat \<Rightarrow> nat \<Rightarrow> nat \<Rightarrow> row list" where
  "questionLoopRows groupId enr lesson dayOffset first lo hi \<equiv>
     concat (map (\<lambda>q.
        (if kcId (questions lesson ! q) = None \<or> kcId (questions lesson ! q) = Some 0 then []
         else [questionShownRow enr lesson (questions lesson ! q) groupId
                 (10 + (int q - int first) - 24 * dayOffset)])
        @ [questionAnsweredRow enr lesson (questions lesson ! q) q groupId
             (10 + (int q - int first) - 24 * dayOffset)]) [lo..<hi])"

text \<open>Every queued continuation belongs to one of the first \<open>n\<close> modules.\<close>

definition partialsWithin :: "nat \<Rightarrow> seedState \<Rightarrow> bool" where
  "partialsWithin n st \<longleftrightarrow> (\<forall>p \<in> set (partialLessonProgress st). pl_moduleIndex p < n)"

subsection \<open>Sample data\<close>

text \<open>
  Lessons as \<^verbatim>\<open>createAllLessonsForModule\<close> makes them: \<^verbatim>\<open>QUESTIONS_PER_LESSON = 4\<close> questions
  each, every question with a knowledge component.
\<close>

definition sampleQuestion :: "int \<Rightarrow> lessonQuestion" where
  "sampleQuestion k = \<lparr>question_id = k, kcId = Some (100 + k), assignmentQuestionId = 200 + k\<rparr>"

definition sampleLesson :: "int \<Rightarrow> lessonData" where
  "sampleLesson k =
     \<lparr>lessonId = k, masteryCheckId = 1000 + k, assignedLessonId = 2000 + k,
      assignedMasteryId = 3000 + k,
      questions = map (\<lambda>j. sampleQuestion (10 * k + j)) [1, 2, 3, 4]\<rparr>"

definition sampleEnrollment :: "int \<Rightarrow> enrollment" where
  "sampleEnrollment k = \<lparr>enrollment_id = k, studentProfileId = ''profile'', name = ''student''\<rparr>"

definition sampleDb :: assignmentQuestions where
  "sampleDb assignment_id = Some (assignment_id + 1, assignment_id + 2)"

text \<open>A database in which no assignment has a question.\<close>

definition emptyDb :: assignmentQuestions where
  "emptyDb assignment_id = None"

definition emptyState :: seedState where
  "emptyState = \<lparr>rows = [], pendingMasteryChecks = [], partialLessonProgress = []\<rparr>"

section \<open>Properties\<close>

subsection \<open>Bounds on rounded values\<close>

declare bitLength.simps [simp del]

lemma bitLength_bounds: "0 < k \<Longrightarrow> 2 ^ (bitLength k - 1) \<le> k \<and> k < 2 ^ bitLength k"
proof (induction k rule: bitLength.induct)
  case (1 k)
  show ?case
  proof (cases "k div 2 \<le> 0")
    case True
    with "1.prems" have "k = 1" by linarith
    then show ?thesis by (simp add: bitLength.simps [of 1] bitLength.simps [of 0])
  next
    case False
    then have pos: "0 < k div 2" by simp
    from "1.prems" have k0: "\<not> k \<le> 0" by simp
    from "1.IH" [OF k0 pos] have lo: "2 ^ (bitLength (k div 2) - 1) \<le> k div 2"
      and hi: "k div 2 < 2 ^ bitLength (k div 2)" by simp_all
    have bl: "bitLength k = Suc (bitLength (k div 2))"
      using k0 by (simp add: bitLength.simps [of k])
    have b1: "0 < bitLength (k div 2)"
      using pos by (simp add: bitLength.simps [of "k div 2"])
    then have "(2 :: int) ^ (bitLength k - 1) = 2 * 2 ^ (bitLength (k div 2) - 1)"
      by (cases "bitLength (k div 2)") (simp_all add: bl)
    also have "\<dots> \<le> 2 * (k div 2)" using lo by simp
    also have "\<dots> \<le> k" by linarith
    finally have A: "2 ^ (bitLength k - 1) \<le> k" .
    have "k < 2 * (k div 2) + 2" by linarith
    also have "\<dots> \<le> 2 * 2 ^ bitLength (k div 2)" using hi by simp
    finally have B: "k < 2 ^ bitLength k" by (simp add: bl)
    from A B show ?thesis ..
  qed
qed

lemma binaryExponent_le:
  assumes "0 < x"
  shows "2 powi binaryExponent x \<le> x"
proof -
  obtain p q where pq: "quotient_of x = (p, q)" by (cases "quotient_of x")
  then have q: "0 < q" by (rule quotient_of_denom_pos)
  from pq have x: "x = of_int p / of_int q" by (rule quotient_of_div)
  with assms q have p: "0 < p" by (simp add: zero_less_divide_iff)
  define bp bq where "bp = bitLength p" and "bq = bitLength q"
  define d where "d = int bp - int bq"
  have E: "binaryExponent x = (if 2 powi d \<le> x then d else d - 1)"
    by (simp add: binaryExponent_def pq d_def bp_def bq_def)
  show ?thesis
  proof (cases "2 powi d \<le> x")
    case True
    with E show ?thesis by simp
  next
    case False
    from bitLength_bounds [of p] p have lo: "2 ^ (bp - 1) \<le> p" and bp: "0 < bp"
      by (auto simp: bp_def bitLength.simps [of p])
    from bitLength_bounds [of q] q have hi: "q < 2 ^ bq"
      by (simp add: bq_def)
    from lo have "rat_of_int (2 ^ (bp - 1)) \<le> of_int p" by (simp only: of_int_le_iff)
    then have lo': "(2 :: rat) ^ (bp - 1) \<le> of_int p" by simp
    from hi have "q \<le> (2 :: int) ^ bq" by simp
    then have "rat_of_int q \<le> of_int (2 ^ bq)" by (simp only: of_int_le_iff)
    then have hi': "of_int q \<le> (2 :: rat) ^ bq" by simp
    have "2 powi (d - 1) = (2 :: rat) ^ (bp - 1) / 2 ^ bq"
    proof -
      have "d - 1 = int (bp - 1) - int bq" using bp by (simp add: d_def)
      then have "(2 :: rat) powi (d - 1) = 2 powi int (bp - 1) / 2 powi int bq"
        by (simp add: power_int_diff)
      then show ?thesis by simp
    qed
    also have "\<dots> \<le> of_int p / 2 ^ bq" using lo' by (simp add: divide_right_mono)
    also have "\<dots> \<le> of_int p / of_int q" using hi' p q by (simp add: divide_left_mono)
    finally show ?thesis using E False x by simp
  qed
qed

lemma roundHalfEven_le: "q \<le> of_int k \<Longrightarrow> roundHalfEven q \<le> k"
proof -
  assume a: "q \<le> of_int k"
  show ?thesis
  proof (cases "q = of_int k")
    case True
    then show ?thesis by (simp add: roundHalfEven_def)
  next
    case False
    with a have "q < of_int k" by simp
    then have "\<lfloor>q\<rfloor> < k" by (simp add: floor_less_iff)
    then show ?thesis by (simp add: roundHalfEven_def Let_def)
  qed
qed

lemma roundHalfEven_nonneg: "0 \<le> q \<Longrightarrow> 0 \<le> roundHalfEven q"
  by (auto simp: roundHalfEven_def Let_def)

lemma toDouble_nonneg: "0 \<le> x \<Longrightarrow> 0 \<le> toDouble x"
  by (auto simp: toDouble_def Let_def sgn_if intro!: mult_nonneg_nonneg roundHalfEven_nonneg
      divide_nonneg_pos)

lemma toDouble_le:
  assumes "0 \<le> x" and "x \<le> of_int c * 2 powi j" and "0 < c" and "c < 4"
  shows "toDouble x \<le> of_int c * 2 powi j"
proof (cases "x = 0")
  case True
  with assms(3) show ?thesis by (simp add: toDouble_def)
next
  case False
  with assms(1) have pos: "0 < x" by simp
  define e where "e = binaryExponent x"
  define ulp :: rat where "ulp = 2 powi (e - 52)"
  have u: "0 < ulp" by (simp add: ulp_def)
  have D: "toDouble x = of_int (roundHalfEven (x / ulp)) * ulp"
    using pos by (simp add: toDouble_def Let_def ulp_def e_def)
  have "2 powi e \<le> x" unfolding e_def by (rule binaryExponent_le [OF pos])
  also note assms(2)
  also have "of_int c * (2 :: rat) powi j < 4 * 2 powi j"
    using assms(4) by simp
  also have "\<dots> = (2 :: rat) powi (j + 2)"
    by (simp add: power_int_add)
  finally have "(2 :: rat) powi e < 2 powi (j + 2)" .
  have "e < j + 2"
  proof (rule ccontr)
    assume "\<not> e < j + 2"
    then have "j + 2 \<le> e" by simp
    then have "(2 :: rat) powi (j + 2) \<le> 2 powi e"
      by (rule power_int_increasing) simp
    with \<open>(2 :: rat) powi e < 2 powi (j + 2)\<close> show False by simp
  qed
  then have k: "0 \<le> j - e + 52" by simp
  have "of_int c * (2 :: rat) powi j = of_int c * 2 powi (j - e + 52) * ulp"
    by (simp add: ulp_def flip: power_int_add)
  also have "(2 :: rat) powi (j - e + 52) = of_int (2 ^ nat (j - e + 52))"
    using k by (simp add: power_int_def)
  finally have y: "of_int c * (2 :: rat) powi j = of_int (c * 2 ^ nat (j - e + 52)) * ulp"
    by simp
  from assms(2) u have "x / ulp \<le> of_int (c * 2 ^ nat (j - e + 52))"
    by (simp add: y pos_divide_le_eq)
  then have "roundHalfEven (x / ulp) \<le> c * 2 ^ nat (j - e + 52)"
    by (rule roundHalfEven_le)
  then have "(of_int (roundHalfEven (x / ulp)) :: rat) \<le> of_int (c * 2 ^ nat (j - e + 52))"
    by (simp only: of_int_le_iff)
  with u have "of_int (roundHalfEven (x / ulp)) * ulp \<le> of_int (c * 2 ^ nat (j - e + 52)) * ulp"
    by (simp add: mult_right_mono)
  then have "toDouble x \<le> of_int (c * 2 ^ nat (j - e + 52)) * ulp"
    by (simp only: D)
  then show ?thesis by (simp only: y)
qed

lemma indexOf_None: "indexOf xs x = None \<longleftrightarrow> x \<notin> set xs"
  by (induction xs) (auto split: option.splits)

lemma indexOf_Some: "indexOf xs x = Some i \<Longrightarrow> i < length xs \<and> xs ! i = x"
  by (induction xs arbitrary: i) (auto split: option.splits if_splits)

lemma indexOf_distinct: "distinct xs \<Longrightarrow> i < length xs \<Longrightarrow> indexOf xs (xs ! i) = Some i"
proof (induction xs arbitrary: i)
  case Nil
  then show ?case by simp
next
  case (Cons y ys)
  show ?case
  proof (cases i)
    case 0
    then show ?thesis by simp
  next
    case (Suc j)
    with Cons.prems have "j < length ys" "ys ! j \<noteq> y" "distinct ys"
      by auto
    with Cons.IH [of j] Suc show ?thesis by simp
  qed
qed

subsection \<open>The next working day\<close>

text \<open>
  Claim C6. For a candidate sequence \<open>s\<close> without repetitions (an ordered sequence of day
  offsets has none) and a current offset \<open>c\<close>: when \<open>c\<close> stands in \<open>s\<close> at a position that is
  not the last, \<open>getNextWorkingDay c s\<close> is the element right after it; when \<open>c\<close> does not
  occur in \<open>s\<close>, or is the last element of \<open>s\<close>, the result is \<open>max 1 (c - 1)\<close>.
\<close>

theorem getNextWorkingDay_spec:
  assumes "distinct s"
  shows "(\<forall>i. Suc i < length s \<and> s ! i = c \<longrightarrow> getNextWorkingDay c s = s ! Suc i) \<and>
         (c \<notin> set s \<or> (s \<noteq> [] \<and> last s = c) \<longrightarrow> getNextWorkingDay c s = max 1 (c - 1))"
proof (intro conjI allI impI)
  fix i assume h: "Suc i < length s \<and> s ! i = c"
  then have "indexOf s c = Some i"
    using indexOf_distinct [OF assms, of i] by auto
  with h show "getNextWorkingDay c s = s ! Suc i"
    by (auto simp: getNextWorkingDay_def)
next
  assume h: "c \<notin> set s \<or> (s \<noteq> [] \<and> last s = c)"
  show "getNextWorkingDay c s = max 1 (c - 1)"
  proof (cases "c \<in> set s")
    case False
    then have "indexOf s c = None" by (simp add: indexOf_None)
    then show ?thesis by (simp add: getNextWorkingDay_def)
  next
    case True
    with h have ne: "s \<noteq> []" and l: "last s = c" by auto
    then have "s ! (length s - 1) = c" by (simp add: last_conv_nth)
    moreover from ne have "length s - 1 < length s" by simp
    ultimately have "indexOf s c = Some (length s - 1)"
      using indexOf_distinct [OF assms, of "length s - 1"] by simp
    then show ?thesis by (simp add: getNextWorkingDay_def)
  qed
qed

theorem getNextWorkingDay_spec_witness:
  "distinct [3, 2, 1 :: int] \<and> getNextWorkingDay 3 [3, 2, 1] = 2 \<and>
   getNextWorkingDay 1 [3, 2, 1] = 1 \<and> getNextWorkingDay 7 [3, 2, 1] = 6"
proof -
  have d: "distinct [3, 2, 1 :: int]" by simp
  have "Suc 0 < length [3, 2, 1 :: int] \<and> [3, 2, 1 :: int] ! 0 = 3" by simp
  with getNextWorkingDay_spec [OF d, of 3] have a: "getNextWorkingDay 3 [3, 2, 1] = [3, 2, 1] ! Suc 0"
    by blast
  have "[3, 2, 1 :: int] \<noteq> [] \<and> last [3, 2, 1 :: int] = 1" by simp
  with getNextWorkingDay_spec [OF d, of 1] have b: "getNextWorkingDay 1 [3, 2, 1] = max 1 (1 - 1)"
    by blast
  have "(7 :: int) \<notin> set [3, 2, 1]" by simp
  with getNextWorkingDay_spec [OF d, of 7] have c: "getNextWorkingDay 7 [3, 2, 1] = max 1 (7 - 1)"
    by blast
  from d a b c show ?thesis by simp
qed

subsection \<open>The windows of the modules\<close>




subsection \<open>The steps of the scheduler in closed form\<close>

lemma foldE_answerQuestion:
  "\<forall>q \<in> set qs. q < length (questions lesson) \<Longrightarrow>
   foldE (answerQuestion g e lesson d first) qs rs =
     Inr (rs @ concat (map (questionRows g e lesson d first) qs))"
  by (induction qs arbitrary: rs)
     (simp_all add: answerQuestion_def elemAt_def questionRows_def Let_def)

lemma answerQuestions_upt:
  "b \<le> length (questions lesson) \<Longrightarrow>
   foldE (answerQuestion g e lesson d first) [a..<b] rs =
     Inr (rs @ concat (map (questionRows g e lesson d first) [a..<b]))"
  by (rule foldE_answerQuestion) simp

lemma scheduleLesson_eq:
  assumes "elemAt ls l = Some lesson" and "elemAt av (min k (length av - 1)) = Some day1"
  shows "scheduleLesson db g i e m ls md av dpl l (st, k) =
    (if (i + l + m) mod 10 < 3 \<and> 2 \<le> length (questions lesson)
     then Inr (st\<lparr>rows := rows st @ concat (map (questionRows g e lesson day1 0)
                                           [0..<length (questions lesson) div 2]),
                 partialLessonProgress := partialLessonProgress st @
                   [\<lparr>pl_enrollment = e, pl_lesson = lesson,
                     questionsCompleted = length (questions lesson) div 2,
                     pl_scheduledDayOffset = getNextWorkingDay day1 av,
                     pl_moduleIndex = m, lessonIndex = l\<rparr>]\<rparr>, k + 2)
     else if (i + l + m) mod 5 < 2 \<and> 1 < day1
     then Inr (st\<lparr>rows := rows st @ concat (map (questionRows g e lesson day1 0)
                                           [0..<length (questions lesson)])
                    @ createLessonCompletedEvent e lesson g
                        (getTimestampDaysAgo day1 (int (length (questions lesson)))),
                 pendingMasteryChecks := pendingMasteryChecks st @
                   [\<lparr>pm_enrollment = e, pm_lesson = lesson,
                     pm_scheduledDayOffset = getNextWorkingDay day1 md,
                     pm_moduleIndex = m\<rparr>]\<rparr>, k + dpl)
     else Inr (st\<lparr>rows := rows st @ concat (map (questionRows g e lesson day1 0)
                                           [0..<length (questions lesson)])
                    @ createLessonCompletedEvent e lesson g
                        (getTimestampDaysAgo day1 (int (length (questions lesson))))
                    @ createMasteryCheckResponse db e lesson
                        (getTimestampDaysAgo day1 (int (length (questions lesson))))
                    @ createMasteryCheckCompletedEvent e lesson g
                        (getTimestampDaysAgo day1 (int (length (questions lesson))))\<rparr>, k + dpl))"
proof -
  have q1: "foldE (answerQuestion g e lesson day1 0) [0..<length (questions lesson) div 2] (rows st)
      = Inr (rows st @ concat (map (questionRows g e lesson day1 0) [0..<length (questions lesson) div 2]))"
    by (rule answerQuestions_upt) simp
  have q2: "foldE (answerQuestion g e lesson day1 0) [0..<length (questions lesson)] (rows st)
      = Inr (rows st @ concat (map (questionRows g e lesson day1 0) [0..<length (questions lesson)]))"
    by (rule answerQuestions_upt) simp
  show ?thesis
  proof (cases "(i + l + m) mod 10 < 3")
    case A: True
    show ?thesis
    proof (cases "2 \<le> length (questions lesson)")
      case True
      then have "0 < length (questions lesson) - length (questions lesson) div 2" by linarith
      with A True show ?thesis
        using assms q1 by (simp add: scheduleLesson_def Let_def)
    next
      case False
      with A show ?thesis
        using assms q2 by (simp add: scheduleLesson_def Let_def)
    qed
  next
    case False
    then show ?thesis
      using assms q2 by (simp add: scheduleLesson_def Let_def)
  qed
qed

lemma reconcilePartial_eq:
  "reconcilePartial db g mwd p st =
    (if (lessonIndex p + pl_moduleIndex p) mod 5 < 2 \<and> 1 < pl_scheduledDayOffset p
     then (case elemAt mwd (pl_moduleIndex p) of
             None \<Rightarrow> Inl TypeError
           | Some days \<Rightarrow>
               Inr (st\<lparr>rows := rows st @ concat (map (questionRows g (pl_enrollment p) (pl_lesson p)
                                                     (pl_scheduledDayOffset p) (questionsCompleted p))
                                 [questionsCompleted p..<length (questions (pl_lesson p))])
                           @ createLessonCompletedEvent (pl_enrollment p) (pl_lesson p) g
                               (getTimestampDaysAgo (pl_scheduledDayOffset p)
                                  (int (length (questions (pl_lesson p))) - int (questionsCompleted p))),
                        pendingMasteryChecks := pendingMasteryChecks st @
                          [\<lparr>pm_enrollment = pl_enrollment p, pm_lesson = pl_lesson p,
                            pm_scheduledDayOffset = getNextWorkingDay (pl_scheduledDayOffset p) days,
                            pm_moduleIndex = pl_moduleIndex p\<rparr>]\<rparr>))
     else Inr (st\<lparr>rows := rows st @ concat (map (questionRows g (pl_enrollment p) (pl_lesson p)
                                                     (pl_scheduledDayOffset p) (questionsCompleted p))
                                 [questionsCompleted p..<length (questions (pl_lesson p))])
                    @ createLessonCompletedEvent (pl_enrollment p) (pl_lesson p) g
                        (getTimestampDaysAgo (pl_scheduledDayOffset p)
                           (int (length (questions (pl_lesson p))) - int (questionsCompleted p)))
                    @ createMasteryCheckResponse db (pl_enrollment p) (pl_lesson p)
                        (getTimestampDaysAgo (pl_scheduledDayOffset p)
                           (int (length (questions (pl_lesson p))) - int (questionsCompleted p)))
                    @ createMasteryCheckCompletedEvent (pl_enrollment p) (pl_lesson p) g
                        (getTimestampDaysAgo (pl_scheduledDayOffset p)
                           (int (length (questions (pl_lesson p))) - int (questionsCompleted p)))\<rparr>))"
  using answerQuestions_upt [of "length (questions (pl_lesson p))" "pl_lesson p" g "pl_enrollment p"
      "pl_scheduledDayOffset p" "questionsCompleted p" "questionsCompleted p" "rows st"]
  by (simp add: reconcilePartial_def Let_def split: option.splits)

subsection \<open>Question events\<close>

lemma questionRows_counts:
  "length (filter (hasType LESSON_QUESTION_SHOWN) (questionRows g e lesson d first q)) =
     (if kcId (questions lesson ! q) = None \<or> kcId (questions lesson ! q) = Some 0 then 0 else 1)"
  "length (filter (hasType QUESTION_ANSWERED) (questionRows g e lesson d first q)) = 1"
  by (auto simp: questionRows_def createQuestionShownEvent_def createQuestionAnsweredEvent_def
      hasType_def falsy_def split: option.splits)

text \<open>
  Claim C9. Both question loops of the scheduler (the first pass over a lesson and the
  reconciler's pass over the rest of a split lesson) are \<open>foldE (answerQuestion \<dots>)\<close> over a
  range of question indices within the lesson. Every question \<open>q\<close> of the range contributes
  the rows \<open>questionRows \<dots> q\<close>; among them there is one \<open>LESSON_QUESTION_SHOWN\<close> event when the
  question has a knowledge component id (an id that JavaScript reads as true: present and not
  0) and none otherwise, and there is always exactly one \<open>QUESTION_ANSWERED\<close> event.
\<close>

theorem question_shown_iff_kc:
  assumes "b \<le> length (questions lesson)"
  shows "foldE (answerQuestion g e lesson d first) [a..<b] rs =
           Inr (rs @ concat (map (questionRows g e lesson d first) [a..<b])) \<and>
         (\<forall>q. a \<le> q \<and> q < b \<longrightarrow>
            length (filter (hasType LESSON_QUESTION_SHOWN) (questionRows g e lesson d first q)) =
              (if kcId (questions lesson ! q) = None \<or> kcId (questions lesson ! q) = Some 0
               then 0 else 1) \<and>
            length (filter (hasType QUESTION_ANSWERED) (questionRows g e lesson d first q)) = 1)"
  using answerQuestions_upt [OF assms] questionRows_counts by blast

theorem question_shown_iff_kc_witness:
  "2 \<le> length (questions \<lparr>lessonId = 1, masteryCheckId = 2, assignedLessonId = 3, assignedMasteryId = 4,
        questions = [\<lparr>question_id = 11, kcId = None, assignmentQuestionId = 21\<rparr>,
                     \<lparr>question_id = 12, kcId = Some 5, assignmentQuestionId = 22\<rparr>]\<rparr>) \<and>
   foldE (answerQuestion 7 (sampleEnrollment 1)
            \<lparr>lessonId = 1, masteryCheckId = 2, assignedLessonId = 3, assignedMasteryId = 4,
             questions = [\<lparr>question_id = 11, kcId = None, assignmentQuestionId = 21\<rparr>,
                          \<lparr>question_id = 12, kcId = Some 5, assignmentQuestionId = 22\<rparr>]\<rparr> 3 0)
      [0..<2] [] =
     Inr [EventRow \<lparr>etype = QUESTION_ANSWERED, ev_enrollmentId = 1, ev_studentProfileId = ''profile'',
            ev_groupId = 7, ev_assignmentId = 1, ev_assignedAssignmentId = None,
            ev_questionId = Some 11, ev_knowledgeComponentId = None,
            ev_assignmentQuestionId = Some 21, ev_questionNumber = Some 1, created_at = - 62\<rparr>,
          EventRow \<lparr>etype = LESSON_QUESTION_SHOWN, ev_enrollmentId = 1, ev_studentProfileId = ''profile'',
            ev_groupId = 7, ev_assignmentId = 1, ev_assignedAssignmentId = None,
            ev_questionId = Some 12, ev_knowledgeComponentId = Some 5,
            ev_assignmentQuestionId = None, ev_questionNumber = None, created_at = - 61\<rparr>,
          EventRow \<lparr>etype = QUESTION_ANSWERED, ev_enrollmentId = 1, ev_studentProfileId = ''profile'',
            ev_groupId = 7, ev_assignmentId = 1, ev_assignedAssignmentId = None,
            ev_questionId = Some 12, ev_knowledgeComponentId = None,
            ev_assignmentQuestionId = Some 22, ev_questionNumber = Some 2, created_at = - 61\<rparr>]"
proof -
  define lesson where "lesson = \<lparr>lessonId = 1, masteryCheckId = 2, assignedLessonId = 3, assignedMasteryId = 4,
        questions = [\<lparr>question_id = 11, kcId = None, assignmentQuestionId = 21\<rparr>,
                     \<lparr>question_id = 12, kcId = Some 5, assignmentQuestionId = 22\<rparr>]\<rparr>"
  have h: "2 \<le> length (questions lesson)" by (simp add: lesson_def)
  have u: "[0..<2] = [0, Suc 0]" by (simp add: upt_conv_Cons)
  from question_shown_iff_kc [OF h, of 7 "sampleEnrollment 1" 3 0 0 "[]"]
  have "foldE (answerQuestion 7 (sampleEnrollment 1) lesson 3 0) [0..<2] [] =
          Inr (concat (map (questionRows 7 (sampleEnrollment 1) lesson 3 0) [0..<2]))"
    by simp
  also have "concat (map (questionRows 7 (sampleEnrollment 1) lesson 3 0) [0..<2]) =
     [EventRow \<lparr>etype = QUESTION_ANSWERED, ev_enrollmentId = 1, ev_studentProfileId = ''profile'',
            ev_groupId = 7, ev_assignmentId = 1, ev_assignedAssignmentId = None,
            ev_questionId = Some 11, ev_knowledgeComponentId = None,
            ev_assignmentQuestionId = Some 21, ev_questionNumber = Some 1, created_at = - 62\<rparr>,
          EventRow \<lparr>etype = LESSON_QUESTION_SHOWN, ev_enrollmentId = 1, ev_studentProfileId = ''profile'',
            ev_groupId = 7, ev_assignmentId = 1, ev_assignedAssignmentId = None,
            ev_questionId = Some 12, ev_knowledgeComponentId = Some 5,
            ev_assignmentQuestionId = None, ev_questionNumber = None, created_at = - 61\<rparr>,
          EventRow \<lparr>etype = QUESTION_ANSWERED, ev_enrollmentId = 1, ev_studentProfileId = ''profile'',
            ev_groupId = 7, ev_assignmentId = 1, ev_assignedAssignmentId = None,
            ev_questionId = Some 12, ev_knowledgeComponentId = None,
            ev_assignmentQuestionId = Some 22, ev_questionNumber = Some 2, created_at = - 61\<rparr>]"
    by (simp add: u questionRows_def createQuestionShownEvent_def createQuestionAnsweredEvent_def
        falsy_def lesson_def sampleEnrollment_def getTimestampDaysAgo_def)
  finally show ?thesis using h by (simp add: lesson_def)
qed

subsection \<open>The mastery check on the most recent day\<close>



subsection \<open>Splitting a lesson over two days\<close>



subsection \<open>The delay decision of the reconciler\<close>




subsection \<open>Loops that do not fail\<close>

lemma foldE_invariant:
  assumes "\<And>x s. x \<in> set xs \<Longrightarrow> P s \<Longrightarrow> \<exists>s'. f x s = Inr s' \<and> P s'" and "P s"
  shows "\<exists>s'. foldE f xs s = Inr s' \<and> P s'"
  using assms
proof (induction xs arbitrary: s)
  case Nil
  then show ?case by simp
next
  case (Cons x xs)
  from Cons.prems(1) [of x s] Cons.prems(2) obtain s1 where s1: "f x s = Inr s1" "P s1"
    by auto
  have "\<exists>s'. foldE f xs s1 = Inr s' \<and> P s'"
    by (rule Cons.IH) (use Cons.prems(1) s1(2) in auto)
  with s1(1) show ?case by simp
qed

lemma foldE_counting:
  assumes "\<And>x s. x \<in> set xs \<Longrightarrow> P s \<Longrightarrow> \<exists>s'. f x s = Inr s' \<and> P s' \<and> c s' = Suc (c s)"
    and "P s"
  shows "\<exists>s'. foldE f xs s = Inr s' \<and> P s' \<and> c s' = c s + length xs"
  using assms
proof (induction xs arbitrary: s)
  case Nil
  then show ?case by simp
next
  case (Cons x xs)
  from Cons.prems(1) [of x s] Cons.prems(2) obtain s1 where
    s1: "f x s = Inr s1" "P s1" "c s1 = Suc (c s)"
    by auto
  have "\<exists>s'. foldE f xs s1 = Inr s' \<and> P s' \<and> c s' = c s1 + length xs"
    by (rule Cons.IH) (use Cons.prems(1) s1(2) in auto)
  with s1(1,3) show ?case by auto
qed

subsection \<open>The learner profile\<close>

lemma completionRate_nth:
  "completionRate i = [1, 8 / 10, 6 / 10, 4 / 10, 2 / 10] ! (i mod 5)"
proof -
  have "i mod 5 < 5" by simp
  then consider "i mod 5 = 0" | "i mod 5 = 1" | "i mod 5 = 2" | "i mod 5 = 3" | "i mod 5 = 4"
    by linarith
  then show ?thesis
    by cases (simp_all add: completionRate_def Let_def)
qed

lemma completionRate_bounds: "0 < completionRate i" "completionRate i \<le> 1"
proof -
  have "i mod 5 < 5" by simp
  then consider "i mod 5 = 0" | "i mod 5 = 1" | "i mod 5 = 2" | "i mod 5 = 3" | "i mod 5 = 4"
    by linarith
  then show "0 < completionRate i" "completionRate i \<le> 1"
    by cases (simp_all add: completionRate_def Let_def)
qed

lemma lessonsToComplete_le: "lessonsToCompleteInModule i ls \<le> length ls"
proof -
  have "rat_of_nat (length ls) * completionRate i \<le> rat_of_nat (length ls) * 1"
    by (rule mult_left_mono) (simp_all add: completionRate_bounds)
  then have "\<lceil>rat_of_nat (length ls) * completionRate i\<rceil> \<le> \<lceil>rat_of_nat (length ls)\<rceil>"
    by (intro ceiling_mono) simp
  then show ?thesis
    by (simp add: lessonsToCompleteInModule_def)
qed

lemma lessonsToComplete_zero: "lessonsToCompleteInModule i ls = 0 \<longleftrightarrow> ls = []"
proof
  assume z: "lessonsToCompleteInModule i ls = 0"
  show "ls = []"
  proof (rule ccontr)
    assume "ls \<noteq> []"
    then have "0 < rat_of_nat (length ls) * completionRate i"
      by (simp add: completionRate_bounds)
    then have "0 < \<lceil>rat_of_nat (length ls) * completionRate i\<rceil>"
      by (simp add: less_ceiling_iff)
    with z show False by (simp add: lessonsToCompleteInModule_def)
  qed
next
  assume "ls = []"
  then show "lessonsToCompleteInModule i ls = 0"
    by (simp add: lessonsToCompleteInModule_def)
qed

lemma startDayIndex_less:
  assumes "i < n" and "0 < len"
  shows "nat \<lfloor>toDouble (toDouble (rat_of_nat i / rat_of_nat n)
                      * toDouble (rat_of_nat len * toDouble (3 / 10)))\<rfloor> < len"
proof -
  define a where "a = toDouble (rat_of_nat i / rat_of_nat n)"
  define c where "c = toDouble (3 / 10)"
  define b where "b = toDouble (rat_of_nat len * c)"
  define j where "j = int (bitLength (int len)) - 3"
  define y :: rat where "y = of_int 3 * 2 powi j"
  have a0: "0 \<le> a" unfolding a_def by (rule toDouble_nonneg) simp
  have "rat_of_nat i / rat_of_nat n \<le> 1" using assms(1) by simp
  then have "toDouble (rat_of_nat i / rat_of_nat n) \<le> of_int 1 * 2 powi 0"
    by (intro toDouble_le) simp_all
  then have a1: "a \<le> 1" by (simp add: a_def)
  have c0: "0 \<le> c" unfolding c_def by (rule toDouble_nonneg) simp
  have "toDouble (3 / 10) \<le> of_int 3 * 2 powi (- 3)"
    by (intro toDouble_le) (simp_all add: power_int_minus)
  then have c1: "c \<le> 3 / 8" by (simp add: c_def power_int_minus)
  from bitLength_bounds [of "int len"] assms(2)
  have lo: "2 ^ (bitLength (int len) - 1) \<le> int len"
    and hi: "int len < 2 ^ bitLength (int len)" by simp_all
  have bl: "0 < bitLength (int len)"
    using assms(2) by (simp add: bitLength.simps [of "int len"])
  have p3: "(2 :: rat) powi j = 2 ^ bitLength (int len) / 8"
    by (simp add: j_def power_int_diff)
  have p1: "(2 :: rat) ^ bitLength (int len) = 2 * 2 ^ (bitLength (int len) - 1)"
    using bl by (cases "bitLength (int len)") simp_all
  from hi have "rat_of_int (int len) < of_int (2 ^ bitLength (int len))" by (simp only: of_int_less_iff)
  then have hi': "rat_of_nat len < 2 ^ bitLength (int len)" by simp
  from lo have "rat_of_int (2 ^ (bitLength (int len) - 1)) \<le> of_int (int len)" by (simp only: of_int_le_iff)
  then have lo': "(2 :: rat) ^ (bitLength (int len) - 1) \<le> of_nat len" by simp
  have "rat_of_nat len * c \<le> rat_of_nat len * (3 / 8)"
    using c1 by (intro mult_left_mono) simp_all
  also have "\<dots> \<le> 2 ^ bitLength (int len) * (3 / 8)"
    using hi' by (intro mult_right_mono) simp_all
  also have "\<dots> = y" by (simp add: y_def p3)
  finally have "rat_of_nat len * c \<le> of_int 3 * 2 powi j" by (simp add: y_def)
  moreover have "0 \<le> rat_of_nat len * c" using c0 by simp
  ultimately have "toDouble (rat_of_nat len * c) \<le> of_int 3 * 2 powi j"
    by (intro toDouble_le) simp_all
  then have b1: "b \<le> y" by (simp add: b_def y_def)
  have b0: "0 \<le> b" unfolding b_def by (rule toDouble_nonneg) (use c0 in simp)
  have "a * b \<le> 1 * b" using a1 b0 by (intro mult_right_mono)
  with b1 have "a * b \<le> of_int 3 * 2 powi j" by (simp add: y_def)
  moreover have "0 \<le> a * b" using a0 b0 by simp
  ultimately have "toDouble (a * b) \<le> of_int 3 * 2 powi j"
    by (intro toDouble_le) simp_all
  also have "of_int 3 * (2 :: rat) powi j = (3 / 4) * 2 ^ (bitLength (int len) - 1)"
    by (simp add: p3 p1)
  also have "\<dots> < 2 ^ (bitLength (int len) - 1)" by simp
  also note lo'
  finally have "toDouble (a * b) < rat_of_nat len" .
  then have "\<lfloor>toDouble (a * b)\<rfloor> < int len"
    by (simp add: floor_less_iff)
  with assms(2) have "nat \<lfloor>toDouble (a * b)\<rfloor> < len"
    by (cases "0 \<le> \<lfloor>toDouble (a * b)\<rfloor>") (simp_all add: nat_less_iff)
  then show ?thesis by (simp add: a_def b_def c_def)
qed

subsection \<open>Counting the scheduled lessons\<close>

lemma hasType_questionRows [simp]:
  "filter (hasType LESSON_COMPLETED) (questionRows g e lesson d first q) = []"
  by (simp add: questionRows_def createQuestionShownEvent_def createQuestionAnsweredEvent_def
      hasType_def)

lemma hasType_concat_questionRows [simp]:
  "filter (hasType LESSON_COMPLETED) (concat (map (questionRows g e lesson d first) qs)) = []"
  by (induction qs) simp_all

lemma hasType_completed [simp]:
  "filter (hasType LESSON_COMPLETED) (createLessonCompletedEvent e lesson g ts) =
     createLessonCompletedEvent e lesson g ts"
  "length (createLessonCompletedEvent e lesson g ts) = 1"
  "filter (hasType LESSON_COMPLETED) (createMasteryCheckCompletedEvent e lesson g ts) = []"
  "filter (hasType LESSON_COMPLETED) (createMasteryCheckResponse db e lesson ts) = []"
  by (simp_all add: createLessonCompletedEvent_def createMasteryCheckCompletedEvent_def
      createMasteryCheckResponse_def hasType_def split: option.splits)

lemma scheduleLesson_step:
  assumes "l < length ls" and "av \<noteq> []" and "m < n" and "partialsWithin n st"
  shows "\<exists>s'. scheduleLesson db g i e m ls md av dpl l (st, k) = Inr s' \<and>
           partialsWithin n (fst s') \<and> lessonsScheduled (fst s') = Suc (lessonsScheduled st)"
proof -
  from assms(1) have a: "elemAt ls l = Some (ls ! l)" by (simp add: elemAt_def)
  from assms(2) have "min k (length av - 1) < length av"
    by (cases av) (simp_all add: min_def)
  then have b: "elemAt av (min k (length av - 1)) = Some (av ! min k (length av - 1))"
    by (simp add: elemAt_def)
  show ?thesis
    unfolding scheduleLesson_eq [OF a b]
    using assms(3,4) by (simp add: partialsWithin_def lessonsScheduled_def)
qed

subsection \<open>The walk over the students does not fail\<close>

lemma processModule_skip:
  assumes "elemAt lbm m = Some ls" and "elemAt mwd m = Some md"
    and "md = [] \<or> ls = []"
  shows "processModule db g n i e lbm mwd m st = Inr st"
  using assms by (auto simp: processModule_def lessonsToComplete_zero)

lemma processModule_run:
  assumes "i < n" and "elemAt lbm m = Some ls" and "elemAt mwd m = Some md"
    and "m < k" and "partialsWithin k st"
  shows "\<exists>st'. processModule db g n i e lbm mwd m st = Inr st' \<and> partialsWithin k st' \<and>
           lessonsScheduled st' =
             lessonsScheduled st + (if md = [] then 0 else lessonsToCompleteInModule i ls)"
proof (cases "md = [] \<or> ls = []")
  case True
  with processModule_skip [OF assms(2,3) True] assms(5) show ?thesis
    by (auto simp: lessonsToComplete_zero)
next
  case False
  define c where "c = lessonsToCompleteInModule i ls"
  define av where "av = drop (nat \<lfloor>toDouble (toDouble (rat_of_nat i / rat_of_nat n)
                                 * toDouble (rat_of_nat (length md) * toDouble (3 / 10)))\<rfloor>) md"
  define dpl where "dpl = max 1 (nat \<lfloor>toDouble (rat_of_nat (length av) / rat_of_nat c)\<rfloor>)"
  from False have c0: "c \<noteq> 0" by (simp add: c_def lessonsToComplete_zero)
  from False have "0 < length md" by simp
  from startDayIndex_less [OF assms(1) this] have av: "av \<noteq> []" by (simp add: av_def)
  have "\<exists>s'. foldE (scheduleLesson db g i e m ls md av dpl) [0..<c] (st, 0) = Inr s' \<and>
          partialsWithin k (fst s') \<and>
          lessonsScheduled (fst s') = lessonsScheduled (fst (st, 0 :: nat)) + length [0..<c]"
  proof (rule foldE_counting [where P = "\<lambda>s. partialsWithin k (fst s)"
        and c = "\<lambda>s. lessonsScheduled (fst s)"])
    fix x and s :: "seedState \<times> nat"
    assume x: "x \<in> set [0..<c]" and p: "partialsWithin k (fst s)"
    from x lessonsToComplete_le [of i ls] have "x < length ls" by (simp add: c_def)
    from scheduleLesson_step [OF this av assms(4) p, of db g i e md dpl "snd s"]
    show "\<exists>s'. scheduleLesson db g i e m ls md av dpl x s = Inr s' \<and> partialsWithin k (fst s') \<and>
            lessonsScheduled (fst s') = Suc (lessonsScheduled (fst s))"
      by simp
  next
    show "partialsWithin k (fst (st, 0 :: nat))" using assms(5) by simp
  qed
  then obtain st' d where
    r: "foldE (scheduleLesson db g i e m ls md av dpl) [0..<c] (st, 0) = Inr (st', d)"
    and p: "partialsWithin k st'" and n: "lessonsScheduled st' = lessonsScheduled st + c"
    by auto
  have "processModule db g n i e lbm mwd m st =
      (case foldE (scheduleLesson db g i e m ls md av dpl) [0..<c] (st, 0) of
         Inl err \<Rightarrow> Inl err | Inr (st', dayIdxOffset) \<Rightarrow> Inr st')"
    unfolding processModule_def Let_def
    unfolding assms(2,3) option.case c_def [symmetric]
    unfolding av_def [symmetric]
    unfolding dpl_def [symmetric]
    using False c0 av by simp
  with r have "processModule db g n i e lbm mwd m st = Inr st'" by simp
  with p n False show ?thesis by (simp add: c_def)
qed

lemma processStudent_run:
  assumes "i < length enrs" and "length mwd = length lbm" and "partialsWithin (length mwd) st"
  shows "\<exists>st'. processStudent db g enrs lbm mwd i st = Inr st' \<and> partialsWithin (length mwd) st'"
proof -
  have "\<exists>st'. foldE (processModule db g (length enrs) i (enrs ! i) lbm mwd) [0..<length lbm] st = Inr st'
          \<and> partialsWithin (length mwd) st'"
  proof (rule foldE_invariant [where P = "partialsWithin (length mwd)"])
    fix m s
    assume m: "m \<in> set [0..<length lbm]" and p: "partialsWithin (length mwd) s"
    then have a: "elemAt lbm m = Some (lbm ! m)" and b: "elemAt mwd m = Some (mwd ! m)"
      and c: "m < length mwd"
      using assms(2) by (simp_all add: elemAt_def)
    from processModule_run [OF assms(1) a b c p]
    show "\<exists>s'. processModule db g (length enrs) i (enrs ! i) lbm mwd m s = Inr s' \<and>
            partialsWithin (length mwd) s'"
      by blast
  qed (fact assms(3))
  with assms(1) show ?thesis
    by (simp add: processStudent_def elemAt_def)
qed

lemma mainPass_run:
  assumes "length mwd = length lbm"
  shows "\<exists>st. mainPass db g enrs lbm mwd = Inr st \<and> partialsWithin (length mwd) st"
  unfolding mainPass_def
proof (rule foldE_invariant [where P = "partialsWithin (length mwd)"])
  fix i s
  assume "i \<in> set [0..<length enrs]" and p: "partialsWithin (length mwd) s"
  then have "i < length enrs" by simp
  from processStudent_run [OF this assms p]
  show "\<exists>s'. processStudent db g enrs lbm mwd i s = Inr s' \<and> partialsWithin (length mwd) s'" .
next
  show "partialsWithin (length mwd) \<lparr>rows = [], pendingMasteryChecks = [], partialLessonProgress = []\<rparr>"
    by (simp add: partialsWithin_def)
qed

subsection \<open>The whole run does not fail\<close>

lemma reconcilePartial_run:
  assumes "pl_moduleIndex p < length mwd"
  shows "\<exists>st'. reconcilePartial db g mwd p st = Inr st'"
  using assms by (simp add: reconcilePartial_eq elemAt_def)

lemma reconcile_all_run:
  assumes "\<forall>p \<in> set ps. pl_moduleIndex p < length mwd"
  shows "\<exists>st'. foldE (reconcilePartial db g mwd) ps st = Inr st'"
proof -
  have "\<exists>st'. foldE (reconcilePartial db g mwd) ps st = Inr st' \<and> True"
    by (rule foldE_invariant [where P = "\<lambda>s. True"])
       (use assms reconcilePartial_run in auto)
  then show ?thesis by simp
qed

lemma splitDaysLoop_length:
  "length (fst (splitDaysLoop wd t ms (acc, d))) = length acc + length ms"
  by (induction ms arbitrary: acc d) (simp_all add: Let_def)

lemma splitWorkingDays_run:
  assumes "lbm \<noteq> []"
  shows "\<exists>mwd. splitWorkingDays wd lbm = Inr mwd \<and> length mwd = length lbm"
proof -
  obtain ws d where r: "splitDaysLoop wd (sum_list (map length lbm)) lbm ([], Some 0) = (ws, d)"
    by (cases "splitDaysLoop wd (sum_list (map length lbm)) lbm ([], Some 0)") auto
  from splitDaysLoop_length [of wd "sum_list (map length lbm)" lbm "[]" "Some 0"] r
  have l: "length ws = length lbm" by simp
  with assms have ne: "ws \<noteq> []" by auto
  then have "length (butlast ws @ [last ws @ x]) = length ws" for x
    by (cases ws) auto
  with r l ne show ?thesis
    by (auto simp: splitWorkingDays_def split: option.splits)
qed

lemma seedEventsOn_run:
  assumes "lbm \<noteq> []"
  shows "\<exists>rs. seedEventsOn db wd g enrs lbm = Inr rs"
proof -
  from splitWorkingDays_run [OF assms] obtain mwd where
    a: "splitWorkingDays wd lbm = Inr mwd" and l: "length mwd = length lbm"
    by blast
  from mainPass_run [OF l] obtain st1 where
    b: "mainPass db g enrs lbm mwd = Inr st1" and p: "partialsWithin (length mwd) st1"
    by blast
  from p have "\<forall>p \<in> set (partialLessonProgress st1). pl_moduleIndex p < length mwd"
    by (simp add: partialsWithin_def)
  from reconcile_all_run [OF this] obtain st2 where
    c: "foldE (reconcilePartial db g mwd) (partialLessonProgress st1) st1 = Inr st2"
    by blast
  from a b c show ?thesis by (simp add: seedEventsOn_def)
qed

subsection \<open>Completion rate and the number of lessons scheduled\<close>

lemma partialsWithin_some: "\<exists>k. m < k \<and> partialsWithin k st"
proof -
  define k where "k = Suc (m + sum_list (map pl_moduleIndex (partialLessonProgress st)))"
  have "pl_moduleIndex p < k" if "p \<in> set (partialLessonProgress st)" for p
  proof -
    from that have "pl_moduleIndex p \<in> set (map pl_moduleIndex (partialLessonProgress st))"
      by simp
    then have "pl_moduleIndex p \<le> sum_list (map pl_moduleIndex (partialLessonProgress st))"
      by (simp add: member_le_sum_list)
    then show ?thesis by (simp add: k_def)
  qed
  then have "partialsWithin k st" by (simp add: partialsWithin_def)
  moreover have "m < k" by (simp add: k_def)
  ultimately show ?thesis by blast
qed

text \<open>
  Claim C5, as the code has it. The completion rate of student \<open>i\<close> is the entry \<open>i mod 5\<close> of
  \<open>[1.0, 0.8, 0.6, 0.4, 0.2]\<close>. In a module whose window of days is not empty, the walk
  schedules exactly \<open>ceil(moduleLessonCount * completionRate)\<close> lessons for the student (each
  of them is completed in the first pass or queued as a split lesson); in a module whose
  window is empty it schedules none. So, the window not being empty, a student with rate 1.0
  is scheduled for all lessons of the module, and a student with rate 0.2 for exactly one
  lesson of a module of five.
\<close>

theorem lessons_scheduled_per_module:
  assumes "i < n" and "elemAt lbm m = Some ls" and "elemAt mwd m = Some md"
  shows "completionRate i = [1, 8 / 10, 6 / 10, 4 / 10, 2 / 10] ! (i mod 5) \<and>
     (\<exists>st'. processModule db g n i e lbm mwd m st = Inr st' \<and>
        lessonsScheduled st' = lessonsScheduled st +
          (if md = [] then 0 else nat \<lceil>rat_of_nat (length ls) * completionRate i\<rceil>)) \<and>
     (completionRate i = 1 \<longrightarrow> nat \<lceil>rat_of_nat (length ls) * completionRate i\<rceil> = length ls) \<and>
     (completionRate i = 2 / 10 \<and> length ls = 5 \<longrightarrow>
        nat \<lceil>rat_of_nat (length ls) * completionRate i\<rceil> = 1)"
proof (intro conjI impI)
  show "completionRate i = [1, 8 / 10, 6 / 10, 4 / 10, 2 / 10] ! (i mod 5)"
    by (rule completionRate_nth)
  from partialsWithin_some [of m st] obtain k where k: "m < k" "partialsWithin k st"
    by blast
  from processModule_run [OF assms k, of db g e]
  show "\<exists>st'. processModule db g n i e lbm mwd m st = Inr st' \<and>
        lessonsScheduled st' = lessonsScheduled st +
          (if md = [] then 0 else nat \<lceil>rat_of_nat (length ls) * completionRate i\<rceil>)"
    by (auto simp: lessonsToCompleteInModule_def)
  show "nat \<lceil>rat_of_nat (length ls) * completionRate i\<rceil> = length ls" if "completionRate i = 1"
    using that by simp
  show "nat \<lceil>rat_of_nat (length ls) * completionRate i\<rceil> = 1"
    if "completionRate i = 2 / 10 \<and> length ls = 5"
  proof -
    from that have "rat_of_nat (length ls) * completionRate i = 1" by simp
    then show ?thesis by simp
  qed
qed

theorem lessons_scheduled_per_module_witness:
  "(4 :: nat) < 13 \<and>
   elemAt [map sampleLesson [1, 2, 3, 4, 5]] 0 = Some (map sampleLesson [1, 2, 3, 4, 5]) \<and>
   elemAt [[3, 2, 1 :: int]] 0 = Some [3, 2, 1] \<and>
   completionRate 4 = 2 / 10 \<and> length (map sampleLesson [1, 2, 3, 4, 5]) = 5 \<and>
   (\<exists>st'. processModule sampleDb 7 13 4 (sampleEnrollment 5) [map sampleLesson [1, 2, 3, 4, 5]]
             [[3, 2, 1]] 0 emptyState = Inr st' \<and>
      lessonsScheduled st' = 1)"
proof -
  have a: "(4 :: nat) < 13" by simp
  have b: "elemAt [map sampleLesson [1, 2, 3, 4, 5]] 0 = Some (map sampleLesson [1, 2, 3, 4, 5])"
    and c: "elemAt [[3, 2, 1 :: int]] 0 = Some [3, 2, 1]"
    by (simp_all add: elemAt_def)
  have d: "length (map sampleLesson [1, 2, 3, 4, 5]) = 5" by simp
  note t = lessons_scheduled_per_module [OF a b c, of sampleDb 7 "sampleEnrollment 5" emptyState]
  from t have r: "completionRate 4 = 2 / 10" by simp
  with t d have n: "nat \<lceil>rat_of_nat (length (map sampleLesson [1, 2, 3, 4, 5])) * completionRate 4\<rceil> = 1"
    by blast
  from t obtain st' where
    "processModule sampleDb 7 13 4 (sampleEnrollment 5) [map sampleLesson [1, 2, 3, 4, 5]]
       [[3, 2, 1]] 0 emptyState = Inr st'"
    and "lessonsScheduled st' = lessonsScheduled emptyState +
          (if [3, 2, 1 :: int] = [] then 0
           else nat \<lceil>rat_of_nat (length (map sampleLesson [1, 2, 3, 4, 5])) * completionRate 4\<rceil>)"
    by blast
  with n have "\<exists>st'. processModule sampleDb 7 13 4 (sampleEnrollment 5) [map sampleLesson [1, 2, 3, 4, 5]]
             [[3, 2, 1]] 0 emptyState = Inr st' \<and> lessonsScheduled st' = 1"
    by (auto simp: lessonsScheduled_def emptyState_def)
  with a b c r d show ?thesis by blast
qed

text \<open>
  The claim as the specification words it holds "in every module". A run of the configured
  45 days started on a Wednesday has 32 working days; with modules of 8, 8 and 1 lessons the
  first two windows take 16 days each and the window of the third module is empty. The
  student of index 0 has rate 1.0, and \<open>ceil(1 * 1.0) = 1\<close>, yet the run writes no
  completion for the lesson of the third module: of the 17 lessons, 16 are completed.
\<close>

theorem lessons_scheduled_counterexample:
  "completionRate 0 = 1 \<and>
   nat \<lceil>rat_of_nat (length [sampleLesson 17]) * completionRate 0\<rceil> = 1 \<and>
   splitWorkingDays (workingDays DAYS_TO_SEED 3)
       [map sampleLesson [1..8], map sampleLesson [9..16], [sampleLesson 17]] =
     Inr [take 16 (workingDays DAYS_TO_SEED 3), drop 16 (workingDays DAYS_TO_SEED 3), []] \<and>
   map_sum id lessonsScheduled
     (processModule sampleDb 7 1 0 (sampleEnrollment 1)
        [map sampleLesson [1..8], map sampleLesson [9..16], [sampleLesson 17]]
        [take 16 (workingDays DAYS_TO_SEED 3), drop 16 (workingDays DAYS_TO_SEED 3), []]
        2 emptyState) = Inr 0 \<and>
   map_sum id (eventTimes LESSON_COMPLETED 1 17 None)
     (seedProgressEventsForGroup sampleDb 3 7 [sampleEnrollment 1]
        [map sampleLesson [1..8], map sampleLesson [9..16], [sampleLesson 17]]) = Inr [] \<and>
   map_sum id (length \<circ> filter (hasType LESSON_COMPLETED))
     (seedProgressEventsForGroup sampleDb 3 7 [sampleEnrollment 1]
        [map sampleLesson [1..8], map sampleLesson [9..16], [sampleLesson 17]]) = Inr 16"
  by code_simp

subsection \<open>No access out of bounds during the walk\<close>

text \<open>
  Claim C7. Every array read of the model that is out of range is an error, so a walk that
  returns a state has made none. For windows \<open>mwd\<close>, one per module (as the allocator makes
  them), the walk over all students returns a state. The number of lessons a student is to
  complete in a module never exceeds the length of the module's lesson list; the index of
  the scheduling day, clamped to the last available day, is in range whenever a day is
  available; a module with an empty window leaves the state as it is, for every student;
  and so does a module in which the student is to complete no lesson.
\<close>

theorem walk_stays_in_bounds:
  assumes "length mwd = length lbm"
  shows "(\<exists>st. mainPass db g enrs lbm mwd = Inr st) \<and>
     (\<forall>i m. m < length lbm \<longrightarrow> lessonsToCompleteInModule i (lbm ! m) \<le> length (lbm ! m)) \<and>
     (\<forall>k av. av \<noteq> [] \<longrightarrow> elemAt av (min k (length av - 1)) = Some (av ! min k (length av - 1))) \<and>
     (\<forall>n i e m st. m < length lbm \<and> mwd ! m = [] \<longrightarrow>
        processModule db g n i e lbm mwd m st = Inr st) \<and>
     (\<forall>n i e m st. m < length lbm \<and> lessonsToCompleteInModule i (lbm ! m) = 0 \<longrightarrow>
        processModule db g n i e lbm mwd m st = Inr st)"
proof (intro conjI allI impI)
  from mainPass_run [OF assms] show "\<exists>st. mainPass db g enrs lbm mwd = Inr st"
    by blast
  show "lessonsToCompleteInModule i (lbm ! m) \<le> length (lbm ! m)" for i m
    by (rule lessonsToComplete_le)
  show "elemAt av (min k (length av - 1)) = Some (av ! min k (length av - 1))"
    if "av \<noteq> []" for k and av :: "'a list"
    using that by (cases av) (simp_all add: elemAt_def min_def)
  show "processModule db g n i e lbm mwd m st = Inr st"
    if "m < length lbm \<and> mwd ! m = []" for n i e m st
    using that assms by (intro processModule_skip [where ls = "lbm ! m" and md = "mwd ! m"])
      (simp_all add: elemAt_def)
  show "processModule db g n i e lbm mwd m st = Inr st"
    if "m < length lbm \<and> lessonsToCompleteInModule i (lbm ! m) = 0" for n i e m st
    using that assms by (intro processModule_skip [where ls = "lbm ! m" and md = "mwd ! m"])
      (simp_all add: elemAt_def lessonsToComplete_zero)
qed

theorem walk_stays_in_bounds_witness:
  "length [[3, 2, 1 :: int], []] = length [[sampleLesson 1], [sampleLesson 2]] \<and>
   (\<exists>st. mainPass sampleDb 7 [sampleEnrollment 1, sampleEnrollment 2]
            [[sampleLesson 1], [sampleLesson 2]] [[3, 2, 1], []] = Inr st) \<and>
   (1 :: nat) < length [[sampleLesson 1], [sampleLesson 2]] \<and> [[3, 2, 1 :: int], []] ! 1 = [] \<and>
   processModule sampleDb 7 2 0 (sampleEnrollment 1) [[sampleLesson 1], [sampleLesson 2]]
     [[3, 2, 1], []] 1 emptyState = Inr emptyState"
proof -
  have a: "length [[3, 2, 1 :: int], []] = length [[sampleLesson 1], [sampleLesson 2]]"
    by simp
  have b: "(1 :: nat) < length [[sampleLesson 1], [sampleLesson 2]] \<and> [[3, 2, 1 :: int], []] ! 1 = []"
    by simp
  note t = walk_stays_in_bounds [OF a, of sampleDb 7 "[sampleEnrollment 1, sampleEnrollment 2]"]
  from t have c: "\<exists>st. mainPass sampleDb 7 [sampleEnrollment 1, sampleEnrollment 2]
            [[sampleLesson 1], [sampleLesson 2]] [[3, 2, 1], []] = Inr st"
    by blast
  from t b have d: "processModule sampleDb 7 2 0 (sampleEnrollment 1)
     [[sampleLesson 1], [sampleLesson 2]] [[3, 2, 1], []] 1 emptyState = Inr emptyState"
    by blast
  from a b c d show ?thesis by blast
qed

subsection \<open>A module without lessons\<close>

text \<open>
  Claim C8. Let a module have an empty lesson list while the total lesson count is positive.
  Then the allocator divides by a positive total (the module's day count is 0, not \<open>NaN\<close>)
  and returns one window per module; for every student the walk over that module leaves the
  state as it is: no row is written and nothing is queued for the module; and the whole run,
  on any list of working days, ends without an error.
\<close>

theorem empty_module_emits_nothing:
  assumes "m < length lbm" and "lbm ! m = []" and "0 < sum_list (map length lbm)"
  shows "moduleDayCount (length (lbm ! m)) (sum_list (map length lbm)) (length wd) = Some 0 \<and>
     (\<exists>mwd. splitWorkingDays wd lbm = Inr mwd \<and> length mwd = length lbm \<and>
        (\<forall>n i e st. processModule db g n i e lbm mwd m st = Inr st)) \<and>
     (\<exists>rs. seedEventsOn db wd g enrs lbm = Inr rs) \<and>
     (\<exists>rs. seedProgressEventsForGroup db todayDow g enrs lbm = Inr rs)"
proof (intro conjI)
  from assms(1) have ne: "lbm \<noteq> []" by auto
  have "moduleDayCount 0 t (length wd) = Some 0" if "0 < t" for t
    using that by (simp add: moduleDayCount_def toDouble_def)
  from this [OF assms(3)]
  show "moduleDayCount (length (lbm ! m)) (sum_list (map length lbm)) (length wd) = Some 0"
    by (simp only: assms(2) list.size)
  from splitWorkingDays_run [OF ne, of wd] obtain mwd where
    a: "splitWorkingDays wd lbm = Inr mwd" and l: "length mwd = length lbm"
    by blast
  have "processModule db g n i e lbm mwd m st = Inr st" for n i e st
    using assms(1,2) l
    by (intro processModule_skip [where ls = "lbm ! m" and md = "mwd ! m"])
       (simp_all add: elemAt_def)
  with a l show "\<exists>mwd. splitWorkingDays wd lbm = Inr mwd \<and> length mwd = length lbm \<and>
        (\<forall>n i e st. processModule db g n i e lbm mwd m st = Inr st)"
    by blast
  show "\<exists>rs. seedEventsOn db wd g enrs lbm = Inr rs"
    by (rule seedEventsOn_run [OF ne])
  show "\<exists>rs. seedProgressEventsForGroup db todayDow g enrs lbm = Inr rs"
    unfolding seedProgressEventsForGroup_def by (rule seedEventsOn_run [OF ne])
qed

theorem empty_module_emits_nothing_witness:
  "(1 :: nat) < length [[sampleLesson 1], []] \<and> [[sampleLesson 1], []] ! 1 = [] \<and>
   0 < sum_list (map length [[sampleLesson 1], []]) \<and>
   (\<exists>rs. seedProgressEventsForGroup sampleDb 2 7 [sampleEnrollment 1] [[sampleLesson 1], []] = Inr rs)"
proof -
  have a: "(1 :: nat) < length [[sampleLesson 1], []]"
    and b: "[[sampleLesson 1], []] ! 1 = []"
    and c: "0 < sum_list (map length [[sampleLesson 1], []])"
    by simp_all
  from empty_module_emits_nothing [OF a b c, of "[]" sampleDb 7 "[sampleEnrollment 1]" 2]
  have "\<exists>rs. seedProgressEventsForGroup sampleDb 2 7 [sampleEnrollment 1] [[sampleLesson 1], []] = Inr rs"
    by blast
  with a b c show ?thesis by blast
qed

subsection \<open>The order of the timestamps\<close>

text \<open>
  Claim C1 asks, for every enrollment and lesson, that question \<open>q\<close> is answered no later
  than question \<open>q + 1\<close> is shown. The run below breaks that. It is a run of the configured
  45 days started on a Tuesday (31 working days, the last of them day 1), for one student
  (index 0) and two modules, of 15 lessons and of one lesson (lesson 16, with the questions
  161 to 164). The window of the second module is the single day 1. Its lesson is split
  (\<open>(0 + 0 + 1) mod 10 < 3\<close>): the questions 161 and 162 are answered on day 1 at 10 and 11
  o'clock (timestamps \<open>-14\<close> and \<open>-13\<close>). No later day is left, so \<open>getNextWorkingDay\<close> falls
  back to \<open>max 1 (1 - 1) = 1\<close>, the same day, and the reconciler starts again at 10 o'clock:
  question 163 is shown at \<open>-14\<close>, an hour before question 162 was answered.
\<close>

theorem timestamps_out_of_order_on_last_day:
  "splitWorkingDays (workingDays DAYS_TO_SEED 2) [map sampleLesson [1..15], [sampleLesson 16]] =
     Inr [butlast (workingDays DAYS_TO_SEED 2), [1]] \<and>
   getNextWorkingDay 1 [1] = 1 \<and>
   map_sum id (eventTimes QUESTION_ANSWERED 1 16 (Some 162))
     (seedProgressEventsForGroup sampleDb 2 7 [sampleEnrollment 1]
        [map sampleLesson [1..15], [sampleLesson 16]]) = Inr [- 13] \<and>
   map_sum id (eventTimes LESSON_QUESTION_SHOWN 1 16 (Some 163))
     (seedProgressEventsForGroup sampleDb 2 7 [sampleEnrollment 1]
        [map sampleLesson [1..15], [sampleLesson 16]]) = Inr [- 14] \<and>
   map_sum id (eventTimes LESSON_COMPLETED 1 16 None)
     (seedProgressEventsForGroup sampleDb 2 7 [sampleEnrollment 1]
        [map sampleLesson [1..15], [sampleLesson 16]]) = Inr [- 12]"
  by code_simp

end
